theory Spec2Isabelle
  imports Complex_Main
begin

section \<open>Tensors and their storage\<close>

text \<open>
  The notebook \<^verbatim>\<open>docs/_static/notebooks/basic_opt.ipynb\<close> works on one-dimensional
  tensors of single-precision floats. Two embeddings of its arithmetic are given.
  \<open>Net_f32\<close> (section "Net.f in single precision") computes as the program does, every
  operation rounded to a float. \<open>Net_f\<close> and what is built on it compute the same
  statements in exact real arithmetic: the idealisation in which the spec states the
  gradient-descent rule, and which is enough for what does not depend on rounding (which
  objects a statement writes, the shape of the tensors). Here a tensor is the list of its
  elements. Tensors are objects that are shared and written in place, so they live in a
  store: a reference is an index into the list of all tensors allocated so far, and a new
  tensor is appended at the end.
\<close>

type_synonym tensor = "real list"
type_synonym tref = nat
type_synonym store = "tensor list"

datatype error = IndexError

definition alloc :: "tensor \<Rightarrow> store \<Rightarrow> tref \<times> store" where
  "alloc t s = (length s, s @ [t])"

definition zeros_like :: "tensor \<Rightarrow> tensor" where
  \<comment> \<open>\<^verbatim>\<open>torch.zeros_like(t)\<close>: the contents of a new tensor of the same shape.\<close>
  "zeros_like t = replicate (length t) 0"

definition getitem :: "tensor \<Rightarrow> nat \<Rightarrow> error + real" where
  \<comment> \<open>\<^verbatim>\<open>t[i]\<close> for a literal index; out of range raises IndexError.\<close>
  "getitem t i = (if i < length t then Inr (t ! i) else Inl IndexError)"

definition setitem :: "tref \<Rightarrow> nat \<Rightarrow> real \<Rightarrow> store \<Rightarrow> error + store" where
  \<comment> \<open>\<^verbatim>\<open>out[i] = v\<close>: writes the tensor behind the reference in place.\<close>
  "setitem r i v s =
     (if i < length (s ! r) then Inr (s[r := (s ! r)[i := v]]) else Inl IndexError)"

section \<open>The model: class Net\<close>

text \<open>
  \<^verbatim>\<open>Net.__init__(self, x)\<close> stores \<^verbatim>\<open>torch.nn.Parameter(x)\<close>, which wraps the
  tensor \<open>x\<close> itself (no copy): the object holds a reference to it.
\<close>

record Net =
  pars :: tref

definition Net_init :: "tref \<Rightarrow> Net" where
  "Net_init x = \<lparr>pars = x\<rparr>"

text \<open>
  \<^verbatim>\<open>Net.f\<close>: allocates \<^verbatim>\<open>out\<close>, fills its first three entries from the parameters
  and returns the sum of the squares of \<^verbatim>\<open>out\<close>. Each read of \<^verbatim>\<open>self.pars\<close> goes
  through the store as it is at that point. A reference held by an object always points
  to an allocated tensor; the theorems state this as \<open>pars self < length s\<close>.
\<close>

definition Net_f :: "Net \<Rightarrow> store \<Rightarrow> error + (real \<times> store)" where
  "Net_f self s =
     (let (out, s0) = alloc (zeros_like (s ! pars self)) s in
      (case getitem (s0 ! pars self) 0 of Inl e \<Rightarrow> Inl e | Inr p0 \<Rightarrow>
      (case setitem out 0 (p0 - 5) s0 of Inl e \<Rightarrow> Inl e | Inr s1 \<Rightarrow>
      (case getitem (s1 ! pars self) 1 of Inl e \<Rightarrow> Inl e | Inr p1 \<Rightarrow>
      (case setitem out 1 p1 s1 of Inl e \<Rightarrow> Inl e | Inr s2 \<Rightarrow>
      (case getitem (s2 ! pars self) 2 of Inl e \<Rightarrow> Inl e | Inr p2 \<Rightarrow>
      (case setitem out 2 (p2 - 1) s2 of Inl e \<Rightarrow> Inl e | Inr s3 \<Rightarrow>
       Inr (sum_list (map (\<lambda>v. v ^ 2) (s3 ! out)), s3))))))))"

text \<open>
  The value \<^verbatim>\<open>Net.f\<close> returns for a network whose parameter tensor holds \<open>x\<close>:
  \<^const>\<open>Net_f\<close> run on the store that holds just that tensor.
\<close>

definition objective :: "tensor \<Rightarrow> error + real" where
  "objective x = (case Net_f \<lparr>pars = 0\<rparr> [x] of Inl e \<Rightarrow> Inl e | Inr (v, _) \<Rightarrow> Inr v)"

text \<open>
  \<^verbatim>\<open>ESTIMATE = torchbearer.state_key('est')\<close> names an entry of the state dictionary
  that torchbearer hands to \<^verbatim>\<open>forward\<close>. The entry written there is
  \<^verbatim>\<open>self.pars.detach().unsqueeze(1)\<close>: no copy, but a view of the parameter tensor's
  own storage, shaped as a column.
\<close>

datatype state_key = StateKey string

definition ESTIMATE :: state_key where
  "ESTIMATE = StateKey ''est''"

datatype view = Column tref

type_synonym tb_state = "state_key \<Rightarrow> view option"

definition read_view :: "view \<Rightarrow> store \<Rightarrow> real list list" where
  "read_view v s = (case v of Column r \<Rightarrow> map (\<lambda>x. [x]) (s ! r))"

text \<open>
  \<^verbatim>\<open>Net.forward(self, _, state)\<close> first writes the state entry, then returns
  \<^verbatim>\<open>self.f()\<close>.
\<close>

definition forward :: "Net \<Rightarrow> 'a \<Rightarrow> tb_state \<Rightarrow> store \<Rightarrow> error + (real \<times> tb_state \<times> store)" where
  "forward self x state s =
     (let state' = state(ESTIMATE \<mapsto> Column (pars self)) in
      (case Net_f self s of Inl e \<Rightarrow> Inl e | Inr (v, s') \<Rightarrow> Inr (v, state', s')))"

section \<open>The loss\<close>

definition loss :: "'a \<Rightarrow> 'b \<Rightarrow> 'a" where
  "loss y_pred y_true = y_pred"

section \<open>Single-precision arithmetic\<close>

text \<open>
  \<^verbatim>\<open>torch.tensor([2.0, 1.0, 10.0])\<close> is a tensor of single-precision floats, and the
  operations of \<^verbatim>\<open>Net.f\<close> compute in that type. A float is a finite real of the
  binary32 grid, an infinity or NaN (the sign of zero and the payload of NaN are not
  distinguished). \<open>f32_round\<close> rounds a real to the nearest float, ties to even: in the
  binade \<open>2 ^ e \<le> \<bar>x\<bar> < 2 ^ (e + 1)\<close> the floats are the multiples of \<open>2 ^ (e - 23)\<close>,
  below \<open>2 ^ -126\<close> the multiples of \<open>2 ^ -149\<close>, and a result of magnitude \<open>2 ^ 128\<close> is
  an infinity. Every arithmetic operation returns the rounded exact result.
\<close>

datatype f32 = Fin real | PInf | NInf | NaN

definition round_half_even :: "real \<Rightarrow> int" where
  \<comment> \<open>The nearest integer; a tie goes to the even one.\<close>
  "round_half_even x =
     (let n = \<lfloor>x\<rfloor>; r = x - of_int n
      in if r < 1 / 2 then n else if 1 / 2 < r then n + 1 else if even n then n else n + 1)"

fun exp_search :: "nat \<Rightarrow> int \<Rightarrow> real \<Rightarrow> int" where
  \<comment> \<open>The greatest exponent \<open>e\<close> from the start downwards with \<open>2 ^ e \<le> x\<close>, at most
      \<open>k\<close> steps down.\<close>
  "exp_search 0 e x = e"
| "exp_search (Suc k) e x = (if 2 powi e \<le> x then e else exp_search k (e - 1) x)"

definition f32_exponent :: "real \<Rightarrow> int" where
  \<comment> \<open>The binade of \<open>x\<close>, between \<open>-126\<close> (subnormals included) and \<open>127\<close>.\<close>
  "f32_exponent x = exp_search 253 127 \<bar>x\<bar>"

definition f32_round :: "real \<Rightarrow> f32" where
  "f32_round x =
     (let q = 2 powi (f32_exponent x - 23);
          y = of_int (round_half_even (x / q)) * q
      in if 2 ^ 128 \<le> y then PInf else if y \<le> - (2 ^ 128) then NInf else Fin y)"

definition is_f32 :: "real \<Rightarrow> bool" where
  \<comment> \<open>The real \<open>x\<close> is a float: rounding leaves it as it is.\<close>
  "is_f32 x = (f32_round x = Fin x)"

fun fneg :: "f32 \<Rightarrow> f32" where
  "fneg (Fin a) = Fin (- a)"
| "fneg PInf = NInf"
| "fneg NInf = PInf"
| "fneg NaN = NaN"

fun fadd :: "f32 \<Rightarrow> f32 \<Rightarrow> f32" where
  "fadd (Fin a) (Fin b) = f32_round (a + b)"
| "fadd NaN y = NaN"
| "fadd x NaN = NaN"
| "fadd PInf NInf = NaN"
| "fadd NInf PInf = NaN"
| "fadd PInf y = PInf"
| "fadd NInf y = NInf"
| "fadd (Fin a) y = y"

definition fsub :: "f32 \<Rightarrow> f32 \<Rightarrow> f32" where
  "fsub x y = fadd x (fneg y)"

fun fmul :: "f32 \<Rightarrow> f32 \<Rightarrow> f32" where
  "fmul (Fin a) (Fin b) = f32_round (a * b)"
| "fmul NaN y = NaN"
| "fmul x NaN = NaN"
| "fmul (Fin a) PInf = (if a = 0 then NaN else if 0 < a then PInf else NInf)"
| "fmul (Fin a) NInf = (if a = 0 then NaN else if 0 < a then NInf else PInf)"
| "fmul PInf (Fin b) = (if b = 0 then NaN else if 0 < b then PInf else NInf)"
| "fmul NInf (Fin b) = (if b = 0 then NaN else if 0 < b then NInf else PInf)"
| "fmul PInf PInf = PInf"
| "fmul PInf NInf = NInf"
| "fmul NInf PInf = NInf"
| "fmul NInf NInf = PInf"

fun sum32 :: "f32 list \<Rightarrow> f32" where
  "sum32 [] = Fin 0"
| "sum32 (x # xs) = foldl fadd x xs"

fun nonneg32 :: "f32 \<Rightarrow> bool" where
  "nonneg32 (Fin y) = (0 \<le> y)"
| "nonneg32 PInf = True"
| "nonneg32 NInf = False"
| "nonneg32 NaN = False"

section \<open>Net.f in single precision\<close>

text \<open>
  \<^verbatim>\<open>Net.f\<close> as it runs: the statements of \<^const>\<open>Net_f\<close>, on tensors of floats. The
  literals \<open>5\<close> and \<open>1\<close> are converted to floats, \<^verbatim>\<open>out**2\<close> multiplies every entry by
  itself, and \<^verbatim>\<open>torch.sum\<close> adds the entries, here from left to right. Each of
  these operations rounds.
\<close>

type_synonym tensor32 = "f32 list"
type_synonym store32 = "tensor32 list"

definition alloc32 :: "tensor32 \<Rightarrow> store32 \<Rightarrow> tref \<times> store32" where
  "alloc32 t s = (length s, s @ [t])"

definition zeros_like32 :: "tensor32 \<Rightarrow> tensor32" where
  "zeros_like32 t = replicate (length t) (Fin 0)"

definition getitem32 :: "tensor32 \<Rightarrow> nat \<Rightarrow> error + f32" where
  "getitem32 t i = (if i < length t then Inr (t ! i) else Inl IndexError)"

definition setitem32 :: "tref \<Rightarrow> nat \<Rightarrow> f32 \<Rightarrow> store32 \<Rightarrow> error + store32" where
  "setitem32 r i v s =
     (if i < length (s ! r) then Inr (s[r := (s ! r)[i := v]]) else Inl IndexError)"

definition Net_f32 :: "Net \<Rightarrow> store32 \<Rightarrow> error + (f32 \<times> store32)" where
  "Net_f32 self s =
     (let (out, s0) = alloc32 (zeros_like32 (s ! pars self)) s in
      (case getitem32 (s0 ! pars self) 0 of Inl e \<Rightarrow> Inl e | Inr p0 \<Rightarrow>
      (case setitem32 out 0 (fsub p0 (Fin 5)) s0 of Inl e \<Rightarrow> Inl e | Inr s1 \<Rightarrow>
      (case getitem32 (s1 ! pars self) 1 of Inl e \<Rightarrow> Inl e | Inr p1 \<Rightarrow>
      (case setitem32 out 1 p1 s1 of Inl e \<Rightarrow> Inl e | Inr s2 \<Rightarrow>
      (case getitem32 (s2 ! pars self) 2 of Inl e \<Rightarrow> Inl e | Inr p2 \<Rightarrow>
      (case setitem32 out 2 (fsub p2 (Fin 1)) s2 of Inl e \<Rightarrow> Inl e | Inr s3 \<Rightarrow>
       Inr (sum32 (map (\<lambda>v. fmul v v) (s3 ! out)), s3))))))))"

definition objective32 :: "tensor32 \<Rightarrow> error + f32" where
  "objective32 x = (case Net_f32 \<lparr>pars = 0\<rparr> [x] of Inl e \<Rightarrow> Inl e | Inr (v, _) \<Rightarrow> Inr v)"


section \<open>Gradient, optimiser and training loop\<close>

text \<open>
  The gradient that \<^verbatim>\<open>backward()\<close> obtains for the scalar returned by \<^verbatim>\<open>Net.f\<close>:
  the vector of its partial derivatives with respect to the entries of the parameter
  tensor (lemma \<open>grad_f_partial\<close> below shows that it is that vector). Entries beyond
  the third do not occur in the scalar, so their derivative is zero.
\<close>

definition grad_f :: "tensor \<Rightarrow> tensor" where
  "grad_f x = (zeros_like x)[0 := 2 * (x ! 0 - 5), 1 := 2 * (x ! 1), 2 := 2 * (x ! 2 - 1)]"

text \<open>
  Modelled from the spec: \<^verbatim>\<open>torch.optim.SGD\<close> and the loop of \<^verbatim>\<open>torchbearer.Trial\<close>
  are not part of the notebook. The spec's gradient-descent updater "repeatedly computes
  the gradient of the objective at the current parameter vector and applies
  \<open>x \<leftarrow> x - lr * grad\<close>"; execution is "a single sequential loop of a fixed number of
  update steps, optionally offloaded to an accelerator device". The update writes the
  parameter tensor in place.
\<close>

definition gd_update :: "real \<Rightarrow> tensor \<Rightarrow> tensor \<Rightarrow> tensor" where
  \<comment> \<open>Modelled from the spec: the optimiser's rule \<open>x \<leftarrow> x - lr * grad\<close>, elementwise.\<close>
  "gd_update lr x g = map2 (\<lambda>xi gi. xi - lr * gi) x g"

primrec trained :: "nat \<Rightarrow> real \<Rightarrow> tensor \<Rightarrow> tensor" where
  \<comment> \<open>Modelled from the spec: the vector after \<open>n\<close> applications of
      \<open>x \<leftarrow> x - lr * grad\<close>, the gradient taken at the current vector each time.\<close>
  "trained 0 lr x = x"
| "trained (Suc n) lr x = trained n lr (gd_update lr x (grad_f x))"

definition SGD_step :: "real \<Rightarrow> tref \<Rightarrow> tensor \<Rightarrow> store \<Rightarrow> store" where
  \<comment> \<open>Modelled from the spec: \<^verbatim>\<open>torch.optim.SGD.step\<close> with the notebook's settings
      (learning rate only) writes the updated values into the parameter tensor.\<close>
  "SGD_step lr p g s = s[p := gd_update lr (s ! p) g]"

definition train_step :: "real \<Rightarrow> Net \<Rightarrow> tb_state \<Rightarrow> store \<Rightarrow> error + (tb_state \<times> store)" where
  \<comment> \<open>Modelled from the spec: one step of the trial's loop. The model's \<^verbatim>\<open>forward\<close> and the
      \<^verbatim>\<open>loss\<close> are the notebook's; the loss is the forward value itself, so its gradient
      is the gradient of the objective at the current parameters.\<close>
  "train_step lr model state s =
     (case forward model () state s of
        Inl e \<Rightarrow> Inl e
      | Inr (y_pred, state', s') \<Rightarrow>
          (let l = loss y_pred ();
               g = grad_f (s' ! pars model)
           in Inr (state', SGD_step lr (pars model) g s')))"

primrec run_steps :: "nat \<Rightarrow> real \<Rightarrow> Net \<Rightarrow> tb_state \<Rightarrow> store \<Rightarrow> error + (tb_state \<times> store)" where
  \<comment> \<open>Modelled from the spec: \<^verbatim>\<open>Trial.run\<close> after \<^verbatim>\<open>for_train_steps(n)\<close>, a sequential loop
      of \<open>n\<close> steps that an exception of a step ends.\<close>
  "run_steps 0 lr model state s = Inr (state, s)"
| "run_steps (Suc n) lr model state s =
     (case train_step lr model state s of
        Inl e \<Rightarrow> Inl e
      | Inr (state', s') \<Rightarrow> run_steps n lr model state' s')"

definition to_device :: "Net \<Rightarrow> store \<Rightarrow> Net \<times> store" where
  \<comment> \<open>Modelled from the spec: \<^verbatim>\<open>Trial.to('cuda')\<close> offloads the model to the device; the
      parameter's data becomes a copy there, with the same values.\<close>
  "to_device model s = (let (d, s') = alloc (s ! pars model) s in (model\<lparr>pars := d\<rparr>, s'))"

section \<open>The notebook's cells\<close>

text \<open>
  The import cell: \<^verbatim>\<open>try: import torchbearer\<close>, \<^verbatim>\<open>except: !pip install torchbearer;
  import torchbearer\<close>. What an import does to the environment, whether it raises, and
  what \<^verbatim>\<open>pip\<close> does are parameters. The bare \<^verbatim>\<open>except\<close> catches every exception; the
  shell escape does not raise; an exception of the second import leaves the cell.
\<close>

datatype action = Import | PipInstall

definition import_cell ::
  "('env \<Rightarrow> 'x option \<times> 'env) \<Rightarrow> ('env \<Rightarrow> 'env) \<Rightarrow> 'env \<Rightarrow> 'x option \<times> action list \<times> 'env" where
  "import_cell try_import pip_install env =
     (case try_import env of
        (None, env1) \<Rightarrow> (None, [Import], env1)
      | (Some exn, env1) \<Rightarrow>
          (let env2 = pip_install env1;
               (r, env3) = try_import env2
           in (r, [Import, PipInstall, Import], env3)))"

text \<open>
  The cells in order. After the import cell come the definitions of \<^verbatim>\<open>ESTIMATE\<close>,
  \<^verbatim>\<open>Net\<close> and \<^verbatim>\<open>loss\<close>, then \<^verbatim>\<open>p = torch.tensor([2.0, 1.0, 10.0])\<close>,
  \<^verbatim>\<open>training_steps = 50000\<close>, \<^verbatim>\<open>model = Net(p)\<close> and
  \<^verbatim>\<open>SGD(model.parameters(), lr=0.0001)\<close>; none of them writes output. The next cell
  configures the trial for \<^verbatim>\<open>training_steps\<close> steps, moves it to the device, runs it and
  ends with \<^verbatim>\<open>print(list(model.parameters())[0].data)\<close>. The code cell after it has as
  its source the progress line of a run (\<^verbatim>\<open>0/1(t): 100%|...| 50000/50000 [...]\<close>), which
  is not Python: running it raises SyntaxError. The last cell is empty. A cell that
  raises shows the error as its output and ends the run. Text that other programs write
  (the log of \<^verbatim>\<open>pip\<close>, what the trial displays while it runs) is not part of the model.
  The run is the loop modelled from the spec, in exact arithmetic; nothing stated below
  about the notebook's output depends on the digits of the printed tensor.
\<close>

definition p_data :: tensor where
  "p_data = [2, 1, 10]"


definition lr_sgd :: real where
  "lr_sgd = 1 / 10000"



definition notebook_setup :: "Net \<times> store" where
  "notebook_setup =
     (let (p, s0) = alloc p_data [];
          model = Net_init p
      in to_device model s0)"


section \<open>What Net.f computes\<close>

lemma Net_f_run:
  assumes "pars self < length s" and "3 \<le> length (s ! pars self)"
  shows "Net_f self s =
    Inr (sum_list (map (\<lambda>v. v ^ 2)
           ((zeros_like (s ! pars self))
              [0 := s ! pars self ! 0 - 5, 1 := s ! pars self ! 1, 2 := s ! pars self ! 2 - 1])),
         s @ [(zeros_like (s ! pars self))
              [0 := s ! pars self ! 0 - 5, 1 := s ! pars self ! 1, 2 := s ! pars self ! 2 - 1]])"
  using assms
  by (auto simp add: Net_f_def alloc_def getitem_def setitem_def zeros_like_def nth_append)

lemma Net_f_short:
  assumes "pars self < length s" and "length (s ! pars self) < 3"
  shows "Net_f self s = Inl IndexError"
  using assms
  by (auto simp add: Net_f_def alloc_def getitem_def setitem_def zeros_like_def nth_append)

lemma Net_f_three:
  assumes "pars self < length s" and "s ! pars self = [a, b, c]"
  shows "Net_f self s = Inr ((a - 5)\<^sup>2 + b\<^sup>2 + (c - 1)\<^sup>2, s @ [[a - 5, b, c - 1]])"
  using assms by (simp add: Net_f_run zeros_like_def numeral_3_eq_3)


lemma objective_of_Net_f:
  assumes "pars self < length s" and "3 \<le> length (s ! pars self)"
    and "Net_f self s = Inr (v, s')"
  shows "objective (s ! pars self) = Inr v"
proof -
  have "Net_f \<lparr>pars = 0\<rparr> [s ! pars self] =
      Inr (v, [s ! pars self] @ [(zeros_like (s ! pars self))
              [0 := s ! pars self ! 0 - 5, 1 := s ! pars self ! 1, 2 := s ! pars self ! 2 - 1]])"
    using assms Net_f_run [of self s] Net_f_run [of "\<lparr>pars = 0\<rparr>" "[s ! pars self]"]
    by simp
  then show ?thesis by (simp add: objective_def)
qed

lemma three_elements:
  assumes "length (xs :: 'a list) = 3"
  shows "\<exists>a b c. xs = [a, b, c]"
  using assms by (auto simp add: numeral_3_eq_3 length_Suc_conv)

text \<open>
  C10. The loss returns its first argument, whatever the second is: two calls with the
  same prediction and different labels give the same result.
\<close>

theorem loss_is_prediction:
  "loss y_pred y_true = y_pred \<and> loss y_pred y_true1 = loss y_pred y_true2"
  by (simp add: loss_def)

section \<open>Convexity and gradient in exact arithmetic\<close>


lemma grad_f_three: "grad_f [a, b, c] = [2 * (a - 5), 2 * b, 2 * (c - 1)]"
  by (simp add: grad_f_def zeros_like_def numeral_3_eq_3)



section \<open>Rounding to single precision\<close>

lemma exp_search_hit:
  assumes "2 powi e \<le> x" and "x < 2 powi (e + 1)" and "e \<le> e0" and "e0 - int k \<le> e"
  shows "exp_search k e0 x = e"
  using assms
proof (induction k arbitrary: e0)
  case 0
  then show ?case by simp
next
  case (Suc k)
  show ?case
  proof (cases "2 powi e0 \<le> x")
    case True
    then have "(2::real) powi e0 < 2 powi (e + 1)" using Suc.prems(2) by linarith
    then have "e0 < e + 1"
      by (metis not_less one_le_numeral power_int_increasing leD)
    then have "e0 = e" using Suc.prems(3) by linarith
    then show ?thesis using True by simp
  next
    case False
    then have "x < 2 powi e0" by simp
    then have "(2::real) powi e < 2 powi e0" using Suc.prems(1) by linarith
    then have "e < e0"
      by (metis not_less one_le_numeral power_int_increasing leD)
    then have "exp_search k (e0 - 1) x = e"
      using Suc.prems by (intro Suc.IH) simp_all
    then show ?thesis using False by simp
  qed
qed

lemma exp_search_low:
  assumes "x < 2 powi (e0 - int k)"
  shows "exp_search k e0 x = e0 - int k"
  using assms
proof (induction k arbitrary: e0)
  case 0
  then show ?case by simp
next
  case (Suc k)
  have "(2::real) powi (e0 - int (Suc k)) \<le> 2 powi e0"
    by (rule power_int_increasing) simp_all
  then have no: "\<not> 2 powi e0 \<le> x" using Suc.prems by linarith
  have "exp_search k (e0 - 1) x = e0 - 1 - int k"
    using Suc.prems by (intro Suc.IH) (simp add: algebra_simps)
  then show ?case using no by simp
qed

lemma exp_search_range: "e0 - int k \<le> exp_search k e0 x \<and> exp_search k e0 x \<le> e0"
proof (induction k arbitrary: e0)
  case 0
  show ?case by simp
next
  case (Suc k)
  from Suc.IH [of "e0 - 1"] show ?case by simp
qed

lemma exp_search_cases:
  "2 powi (exp_search k e0 x) \<le> x \<or> exp_search k e0 x = e0 - int k"
proof (induction k arbitrary: e0)
  case 0
  show ?case by simp
next
  case (Suc k)
  from Suc.IH [of "e0 - 1"] show ?case by auto
qed

lemma f32_exponent_normal:
  assumes "- 126 \<le> e" and "e \<le> 127" and "2 powi e \<le> \<bar>x\<bar>" and "\<bar>x\<bar> < 2 powi (e + 1)"
  shows "f32_exponent x = e"
  unfolding f32_exponent_def using assms by (intro exp_search_hit) simp_all

lemma f32_exponent_subnormal:
  assumes "\<bar>x\<bar> < 2 powi (- 126)"
  shows "f32_exponent x = - 126"
  unfolding f32_exponent_def using exp_search_low [of "\<bar>x\<bar>" 127 253] assms by simp

lemma f32_exponent_range: "- 126 \<le> f32_exponent x \<and> f32_exponent x \<le> 127"
  unfolding f32_exponent_def using exp_search_range [of 127 253 "\<bar>x\<bar>"] by simp

lemma f32_round_normal:
  assumes "- 126 \<le> e" and "e \<le> 127" and "2 powi e \<le> \<bar>x\<bar>" and "\<bar>x\<bar> < 2 powi (e + 1)"
  shows "f32_round x =
     (let q = 2 powi (e - 23);
          y = of_int (round_half_even (x / q)) * q
      in if 2 ^ 128 \<le> y then PInf else if y \<le> - (2 ^ 128) then NInf else Fin y)"
  unfolding f32_round_def f32_exponent_normal [OF assms] by (rule refl)

lemma f32_round_0: "f32_round 0 = Fin 0"
  by (simp add: f32_round_def round_half_even_def)

lemma round_half_even_nonneg: "0 \<le> x \<Longrightarrow> 0 \<le> round_half_even x"
  by (simp add: round_half_even_def Let_def)

lemma f32_round_nonneg:
  assumes "0 \<le> x"
  shows "nonneg32 (f32_round x)"
proof -
  let ?q = "(2::real) powi (f32_exponent x - 23)"
  have q: "0 < ?q" by simp
  have "0 \<le> x / ?q" using assms q by simp
  then have "0 \<le> round_half_even (x / ?q)" by (rule round_half_even_nonneg)
  then have "0 \<le> of_int (round_half_even (x / ?q)) * ?q" using q by simp
  then show ?thesis by (simp add: f32_round_def Let_def)
qed

lemma f32_round_not_NaN: "f32_round x \<noteq> NaN"
  by (simp add: f32_round_def Let_def)

lemma fadd_nonneg: "nonneg32 x \<Longrightarrow> nonneg32 y \<Longrightarrow> nonneg32 (fadd x y)"
  by (cases x; cases y) (simp_all add: f32_round_nonneg)

lemma fmul_self_nonneg: "x \<noteq> NaN \<Longrightarrow> nonneg32 (fmul x x)"
  by (cases x) (simp_all add: f32_round_nonneg)

lemma fsub_Fin_not_NaN: "fsub (Fin a) (Fin b) \<noteq> NaN"
  by (simp add: fsub_def f32_round_not_NaN)

lemma round_half_even_zero:
  assumes "round_half_even x = 0"
  shows "\<bar>x\<bar> \<le> 1 / 2"
proof -
  have "\<lfloor>x\<rfloor> = 0 \<and> x - of_int \<lfloor>x\<rfloor> \<le> 1 / 2 \<or> \<lfloor>x\<rfloor> = - 1 \<and> 1 / 2 \<le> x - of_int \<lfloor>x\<rfloor>"
    using assms by (auto simp add: round_half_even_def Let_def split: if_splits)
  then show ?thesis
  proof
    assume a: "\<lfloor>x\<rfloor> = 0 \<and> x - of_int \<lfloor>x\<rfloor> \<le> 1 / 2"
    then have "0 \<le> x" by (metis floor_correct of_int_0 a)
    then show ?thesis using a by simp
  next
    assume a: "\<lfloor>x\<rfloor> = - 1 \<and> 1 / 2 \<le> x - of_int \<lfloor>x\<rfloor>"
    have "x < of_int \<lfloor>x\<rfloor> + 1" by linarith
    then have "x < 0" using a by simp
    then show ?thesis using a by simp
  qed
qed

lemma f32_round_zero:
  assumes "f32_round r = Fin 0"
  shows "\<bar>r\<bar> \<le> 2 powi (- 150)"
proof -
  let ?e = "f32_exponent r"
  let ?q = "(2::real) powi (?e - 23)"
  have q: "0 < ?q" by simp
  have "of_int (round_half_even (r / ?q)) * ?q = 0"
    using assms by (simp add: f32_round_def Let_def split: if_splits)
  then have "round_half_even (r / ?q) = 0" using q by simp
  then have "\<bar>r / ?q\<bar> \<le> 1 / 2" by (rule round_half_even_zero)
  then have half: "\<bar>r\<bar> \<le> ?q / 2" using q by (simp add: field_simps abs_mult)
  have "2 powi ?e \<le> \<bar>r\<bar> \<or> ?e = - 126"
    unfolding f32_exponent_def using exp_search_cases [of 253 127 "\<bar>r\<bar>"] by simp
  then show ?thesis
  proof
    assume n: "2 powi ?e \<le> \<bar>r\<bar>"
    have "?q = 2 powi ?e / 2 ^ 23"
      by (simp add: power_int_diff)
    then have "\<bar>r\<bar> \<le> 2 powi ?e / 2 ^ 24" using half by simp
    moreover have "(2::real) powi ?e / 2 ^ 24 < 2 powi ?e"
      by (simp add: field_simps)
    ultimately have False using n by linarith
    then show ?thesis ..
  next
    assume "?e = - 126"
    then have "?q = 2 powi (- 149)" by simp
    then have "\<bar>r\<bar> \<le> 2 powi (- 149) / 2" using half by simp
    also have "\<dots> = 2 powi (- 150)" by simp
    finally show ?thesis .
  qed
qed

lemma f32_round_grid:
  assumes "f32_round r = Fin v"
  shows "\<exists>m::int. v = of_int m * 2 powi (- 149)"
proof -
  let ?e = "f32_exponent r"
  let ?q = "(2::real) powi (?e - 23)"
  have v: "v = of_int (round_half_even (r / ?q)) * ?q"
    using assms by (simp add: f32_round_def Let_def split: if_splits)
  have ge: "0 \<le> ?e + 126" using f32_exponent_range [of r] by simp
  have "?q = 2 powi ((?e + 126) + (- 149))" by simp
  also have "\<dots> = 2 powi (?e + 126) * 2 powi (- 149)"
    by (rule power_int_add) simp
  also have "2 powi (?e + 126) = (of_int (2 ^ nat (?e + 126)) :: real)"
    using ge by (simp add: power_int_def)
  finally have "v = of_int (round_half_even (r / ?q) * 2 ^ nat (?e + 126)) * 2 powi (- 149)"
    using v by simp
  then show ?thesis by blast
qed

lemma grid_nonzero:
  fixes m :: int
  assumes "m \<noteq> 0"
  shows "2 powi (- 150) < \<bar>of_int m * (2::real) powi (- 149)\<bar>"
proof -
  have "1 \<le> \<bar>m\<bar>" using assms by simp
  then have "(1::real) \<le> \<bar>of_int m\<bar>" by (metis of_int_1_le_iff of_int_abs)
  then have "(2::real) powi (- 149) \<le> \<bar>of_int m\<bar> * 2 powi (- 149)"
    by (simp add: mult_le_cancel_right1)
  moreover have "(2::real) powi (- 150) < 2 powi (- 149)"
    by (rule power_int_strict_increasing) simp_all
  ultimately show ?thesis by (simp add: abs_mult)
qed

lemma f32_round_grid_nonzero:
  assumes "r = of_int m * 2 powi (- 149)" and "r \<noteq> 0"
  shows "f32_round r \<noteq> Fin 0"
proof
  assume "f32_round r = Fin 0"
  then have "\<bar>r\<bar> \<le> 2 powi (- 150)" by (rule f32_round_zero)
  moreover have "m \<noteq> 0" using assms by auto
  ultimately show False using grid_nonzero [of m] assms(1) by simp
qed

lemma round_half_even_error: "\<bar>of_int (round_half_even x) - x\<bar> \<le> 1 / 2"
proof -
  have "of_int \<lfloor>x\<rfloor> \<le> x" and "x < of_int \<lfloor>x\<rfloor> + 1" by linarith+
  then show ?thesis by (auto simp add: round_half_even_def Let_def)
qed

lemma f32_exponent_le:
  assumes "2 powi (- 126) \<le> \<bar>r\<bar>"
  shows "2 powi (f32_exponent r) \<le> \<bar>r\<bar>"
proof -
  have "2 powi (f32_exponent r) \<le> \<bar>r\<bar> \<or> f32_exponent r = - 126"
    unfolding f32_exponent_def using exp_search_cases [of 253 127 "\<bar>r\<bar>"] by simp
  then show ?thesis using assms by auto
qed

lemma f32_round_lower:
  assumes "f32_round r = Fin t" and "2 powi (- 126) \<le> \<bar>r\<bar>"
  shows "\<bar>r\<bar> / 2 \<le> \<bar>t\<bar>"
proof -
  let ?e = "f32_exponent r"
  let ?q = "(2::real) powi (?e - 23)"
  let ?n = "round_half_even (r / ?q)"
  have q: "0 < ?q" by simp
  have t: "t = of_int ?n * ?q"
    using assms(1) by (simp add: f32_round_def Let_def split: if_splits)
  have "\<bar>of_int ?n - r / ?q\<bar> \<le> 1 / 2" by (rule round_half_even_error)
  then have "\<bar>of_int ?n - r / ?q\<bar> * ?q \<le> 1 / 2 * ?q"
    using q by (intro mult_right_mono) simp_all
  moreover have "\<bar>of_int ?n - r / ?q\<bar> * ?q = \<bar>t - r\<bar>"
  proof -
    have "\<bar>of_int ?n - r / ?q\<bar> * ?q = \<bar>of_int ?n - r / ?q\<bar> * \<bar>?q\<bar>"
      using q by simp
    also have "\<dots> = \<bar>(of_int ?n - r / ?q) * ?q\<bar>"
      by (rule abs_mult [symmetric])
    also have "(of_int ?n - r / ?q) * ?q = t - r"
      using q by (simp add: t left_diff_distrib)
    finally show ?thesis .
  qed
  ultimately have err: "\<bar>t - r\<bar> \<le> ?q / 2" by simp
  have "?q = 2 powi ?e / 2 ^ 23" by (simp add: power_int_diff)
  also have "\<dots> \<le> \<bar>r\<bar> / 2 ^ 23"
    using f32_exponent_le [OF assms(2)] by (simp add: divide_right_mono)
  finally have "?q / 2 \<le> \<bar>r\<bar> / 2" by simp
  then have "\<bar>t - r\<bar> \<le> \<bar>r\<bar> / 2" using err by linarith
  then show ?thesis by linarith
qed

lemma is_f32_grid:
  assumes "is_f32 a" and "- 126 \<le> e" and "e \<le> 127" and "2 powi e \<le> \<bar>a\<bar>" and "\<bar>a\<bar> < 2 powi (e + 1)"
  shows "\<exists>n::int. a = of_int n * 2 powi (e - 23)"
proof -
  have "f32_round a = Fin a" using assms(1) by (simp add: is_f32_def)
  then have "a = of_int (round_half_even (a / 2 powi (e - 23))) * 2 powi (e - 23)"
    unfolding f32_round_normal [OF assms(2-5)] by (simp add: Let_def split: if_splits)
  then show ?thesis by blast
qed

lemma int_multiple_ge:
  fixes m :: int and g :: real
  assumes "m \<noteq> 0" and "0 < g"
  shows "g \<le> \<bar>of_int m * g\<bar>"
proof -
  have "1 \<le> \<bar>m\<bar>" using assms(1) by simp
  then have "(1::real) \<le> \<bar>of_int m\<bar>" by (metis of_int_1_le_iff of_int_abs)
  then have "g \<le> \<bar>of_int m\<bar> * g" using assms(2) by (simp add: mult_le_cancel_right1)
  then show ?thesis using assms(2) by (simp add: abs_mult)
qed

lemma near_5:
  assumes "is_f32 a" and "a \<noteq> 5"
  shows "2 powi (- 21) \<le> \<bar>a - 5\<bar>"
proof (cases "1 \<le> \<bar>a - 5\<bar>")
  case True
  have "(2::real) powi (- 21) \<le> 1" by simp
  then show ?thesis using True by linarith
next
  case False
  then have "2 powi 2 \<le> \<bar>a\<bar>" and "\<bar>a\<bar> < 2 powi (2 + 1)" by simp_all
  from is_f32_grid [OF assms(1) _ _ this] obtain n :: int where n: "a = of_int n * 2 powi (2 - 23)"
    by auto
  have eq: "a - 5 = of_int (n - 5 * 2 ^ 21) * 2 powi (- 21)"
    by (simp add: n left_diff_distrib)
  have nz: "n - 5 * 2 ^ 21 \<noteq> 0"
    using assms(2) n by auto
  have "2 powi (- 21) \<le> \<bar>of_int (n - 5 * 2 ^ 21) * (2::real) powi (- 21)\<bar>"
    using nz by (rule int_multiple_ge) simp
  then show ?thesis unfolding eq .
qed

lemma near_1:
  assumes "is_f32 c" and "c \<noteq> 1"
  shows "2 powi (- 24) \<le> \<bar>c - 1\<bar>"
proof (cases "1 / 2 \<le> \<bar>c - 1\<bar>")
  case True
  have "(2::real) powi (- 24) \<le> 1 / 2" by simp
  then show ?thesis using True by linarith
next
  case False
  show ?thesis
  proof (cases "c < 1")
    case True
    with False have "2 powi (- 1) \<le> \<bar>c\<bar>" and "\<bar>c\<bar> < 2 powi (- 1 + 1)" by simp_all
    from is_f32_grid [OF assms(1) _ _ this] obtain n :: int
      where n: "c = of_int n * 2 powi (- 1 - 23)"
      by auto
    have eq: "c - 1 = of_int (n - 2 ^ 24) * 2 powi (- 24)"
      by (simp add: n left_diff_distrib)
    have nz: "n - 2 ^ 24 \<noteq> 0"
      using assms(2) n by auto
    have "2 powi (- 24) \<le> \<bar>of_int (n - 2 ^ 24) * (2::real) powi (- 24)\<bar>"
      using nz by (rule int_multiple_ge) simp
    then show ?thesis unfolding eq .
  next
    case c: False
    with False have "2 powi 0 \<le> \<bar>c\<bar>" and "\<bar>c\<bar> < 2 powi (0 + 1)" by simp_all
    from is_f32_grid [OF assms(1) _ _ this] obtain n :: int
      where n: "c = of_int n * 2 powi (0 - 23)"
      by auto
    have eq: "c - 1 = of_int (2 * n - 2 ^ 24) * 2 powi (- 24)"
      by (simp add: n left_diff_distrib)
    have nz: "2 * n - 2 ^ 24 \<noteq> 0"
      using assms(2) n by auto
    have "2 powi (- 24) \<le> \<bar>of_int (2 * n - 2 ^ 24) * (2::real) powi (- 24)\<bar>"
      using nz by (rule int_multiple_ge) simp
    then show ?thesis unfolding eq .
  qed
qed

section \<open>What Net.f computes in single precision\<close>

lemma Net_f32_three:
  assumes "pars self < length s" and "s ! pars self = [x0, x1, x2]"
  shows "Net_f32 self s =
    Inr (fadd (fadd (fmul (fsub x0 (Fin 5)) (fsub x0 (Fin 5))) (fmul x1 x1))
              (fmul (fsub x2 (Fin 1)) (fsub x2 (Fin 1))),
         s @ [[fsub x0 (Fin 5), x1, fsub x2 (Fin 1)]])"
  using assms
  by (simp add: Net_f32_def alloc32_def getitem32_def setitem32_def zeros_like32_def
      nth_append numeral_3_eq_3)

lemma objective32_three:
  "objective32 [x0, x1, x2] =
     Inr (fadd (fadd (fmul (fsub x0 (Fin 5)) (fsub x0 (Fin 5))) (fmul x1 x1))
               (fmul (fsub x2 (Fin 1)) (fsub x2 (Fin 1))))"
  by (simp add: objective32_def Net_f32_three)


lemma fsub_Fin: "fsub (Fin a) (Fin b) = f32_round (a - b)"
  by (simp add: fsub_def)

lemma r4997: "f32_round 4997 = Fin 4997"
  by (simp add: f32_round_normal [of 12] round_half_even_def)

lemma r24970008: "f32_round 24970008 = Fin 24970008"
  by (simp add: f32_round_normal [of 24] round_half_even_def)

lemma r24970009: "f32_round 24970009 = Fin 24970008"
  by (simp add: f32_round_normal [of 24] round_half_even_def)

lemma nonneg32_cases: "nonneg32 v \<Longrightarrow> v = PInf \<or> (\<exists>y. v = Fin y \<and> 0 \<le> y)"
  by (cases v) simp_all

lemma fmul_self_form:
  assumes "d \<noteq> NaN"
  shows "fmul d d = PInf \<or> (\<exists>u. 0 \<le> u \<and> fmul d d = f32_round u)"
proof (cases d)
  case (Fin t)
  have "0 \<le> t * t \<and> fmul d d = f32_round (t * t)" using Fin by simp
  then show ?thesis by blast
qed (use assms in simp_all)

lemma fadd_form:
  assumes "X = PInf \<or> (\<exists>u. 0 \<le> u \<and> X = f32_round u)"
    and "Y = PInf \<or> (\<exists>w. 0 \<le> w \<and> Y = f32_round w)"
  shows "fadd X Y = PInf \<or> (\<exists>u. 0 \<le> u \<and> fadd X Y = f32_round u)"
proof -
  have nx: "nonneg32 X" using assms(1) f32_round_nonneg by auto
  have ny: "nonneg32 Y" using assms(2) f32_round_nonneg by auto
  from nonneg32_cases [OF nx] nonneg32_cases [OF ny] show ?thesis
  proof (elim disjE exE conjE)
    fix x y assume "X = Fin x" "0 \<le> x" "Y = Fin y" "0 \<le> y"
    then have "0 \<le> x + y \<and> fadd X Y = f32_round (x + y)" by simp
    then show ?thesis by blast
  qed simp_all
qed

lemma fadd_zero:
  assumes "fadd X Y = Fin 0"
    and "X = PInf \<or> (\<exists>u. 0 \<le> u \<and> X = f32_round u)"
    and "Y = PInf \<or> (\<exists>w. 0 \<le> w \<and> Y = f32_round w)"
  shows "X = Fin 0 \<and> Y = Fin 0"
proof -
  have nx: "nonneg32 X" using assms(2) f32_round_nonneg by auto
  have ny: "nonneg32 Y" using assms(3) f32_round_nonneg by auto
  from nonneg32_cases [OF nx] nonneg32_cases [OF ny] show ?thesis
  proof (elim disjE exE conjE)
    fix x y assume xy: "X = Fin x" "0 \<le> x" "Y = Fin y" "0 \<le> y"
    from xy assms(2) obtain u where "f32_round u = Fin x" by auto
    from f32_round_grid [OF this] obtain m :: int where m: "x = of_int m * 2 powi (- 149)" by blast
    from xy assms(3) obtain w where "f32_round w = Fin y" by auto
    from f32_round_grid [OF this] obtain k :: int where k: "y = of_int k * 2 powi (- 149)" by blast
    have s: "x + y = of_int (m + k) * 2 powi (- 149)"
      by (simp add: m k distrib_right)
    have "f32_round (x + y) = Fin 0" using assms(1) xy by simp
    then have "x + y = 0"
      using f32_round_grid_nonzero [OF s] by blast
    then have "x = 0 \<and> y = 0" using xy by linarith
    then show ?thesis using xy by simp
  next
    assume "X = PInf" "Y = PInf"
    then show ?thesis using assms(1) by simp
  next
    fix y assume "X = PInf" "Y = Fin y"
    then show ?thesis using assms(1) by simp
  next
    fix x assume "X = Fin x" "Y = PInf"
    then show ?thesis using assms(1) by simp
  qed
qed

lemma fmul_self_round_nonzero:
  assumes "2 powi (- 24) \<le> \<bar>r\<bar>"
  shows "fmul (f32_round r) (f32_round r) \<noteq> Fin 0"
proof (cases "f32_round r")
  case (Fin t)
  have "(2::real) powi (- 126) \<le> 2 powi (- 24)"
    by (rule power_int_increasing) simp_all
  then have "2 powi (- 126) \<le> \<bar>r\<bar>" using assms by linarith
  from f32_round_lower [OF Fin this] assms have t: "2 powi (- 25) \<le> \<bar>t\<bar>" by simp
  show ?thesis
  proof
    assume "fmul (f32_round r) (f32_round r) = Fin 0"
    then have "f32_round (t * t) = Fin 0" using Fin by simp
    then have "\<bar>t * t\<bar> \<le> 2 powi (- 150)" by (rule f32_round_zero)
    moreover have "2 powi (- 25) * 2 powi (- 25) \<le> \<bar>t\<bar> * \<bar>t\<bar>"
      using t by (intro mult_mono) simp_all
    moreover have "(2::real) powi (- 150) < 2 powi (- 25) * 2 powi (- 25)"
      by simp
    ultimately show False by (simp add: abs_mult)
  qed
next
  case NaN
  then show ?thesis using f32_round_not_NaN by blast
qed simp_all



lemma square_underflow:
  assumes "fmul (Fin b) (Fin b) = Fin 0"
  shows "\<bar>b\<bar> \<le> 2 powi (- 75)"
proof -
  have "\<bar>b * b\<bar> \<le> 2 powi (- 150)"
    using assms by (intro f32_round_zero) simp
  also have "(2::real) powi (- 150) = (2 powi (- 75))\<^sup>2" by (simp add: power_divide)
  finally have "b\<^sup>2 \<le> (2 powi (- 75))\<^sup>2" by (simp add: power2_eq_square abs_mult)
  then have "\<bar>b\<bar> \<le> \<bar>(2::real) powi (- 75)\<bar>" by (simp only: abs_le_square_iff)
  then show ?thesis by simp
qed

lemma objective32_nonneg:
  "\<exists>v. objective32 [Fin a, Fin b, Fin c] = Inr v \<and> (v = PInf \<or> (\<exists>y. v = Fin y \<and> 0 \<le> y))"
proof -
  let ?A = "fmul (fsub (Fin a) (Fin 5)) (fsub (Fin a) (Fin 5))"
  let ?B = "fmul (Fin b) (Fin b)"
  let ?C = "fmul (fsub (Fin c) (Fin 1)) (fsub (Fin c) (Fin 1))"
  have fa: "?A = PInf \<or> (\<exists>u. 0 \<le> u \<and> ?A = f32_round u)"
    by (rule fmul_self_form) (rule fsub_Fin_not_NaN)
  have fb: "?B = PInf \<or> (\<exists>u. 0 \<le> u \<and> ?B = f32_round u)"
    by (rule fmul_self_form) simp
  have fc: "?C = PInf \<or> (\<exists>u. 0 \<le> u \<and> ?C = f32_round u)"
    by (rule fmul_self_form) (rule fsub_Fin_not_NaN)
  have "fadd (fadd ?A ?B) ?C = PInf \<or> (\<exists>u. 0 \<le> u \<and> fadd (fadd ?A ?B) ?C = f32_round u)"
    by (intro fadd_form fa fb fc)
  then have "nonneg32 (fadd (fadd ?A ?B) ?C)"
    using f32_round_nonneg by auto
  then show ?thesis
    unfolding objective32_three using nonneg32_cases by blast
qed

lemma objective32_zero:
  assumes "is_f32 a" and "is_f32 b" and "is_f32 c"
    and "objective32 [Fin a, Fin b, Fin c] = Inr (Fin 0)"
  shows "a = 5 \<and> c = 1 \<and> \<bar>b\<bar> \<le> 2 powi (- 75)"
proof -
  let ?A = "fmul (fsub (Fin a) (Fin 5)) (fsub (Fin a) (Fin 5))"
  let ?B = "fmul (Fin b) (Fin b)"
  let ?C = "fmul (fsub (Fin c) (Fin 1)) (fsub (Fin c) (Fin 1))"
  have fa: "?A = PInf \<or> (\<exists>u. 0 \<le> u \<and> ?A = f32_round u)"
    by (rule fmul_self_form) (rule fsub_Fin_not_NaN)
  have fb: "?B = PInf \<or> (\<exists>u. 0 \<le> u \<and> ?B = f32_round u)"
    by (rule fmul_self_form) simp
  have fc: "?C = PInf \<or> (\<exists>u. 0 \<le> u \<and> ?C = f32_round u)"
    by (rule fmul_self_form) (rule fsub_Fin_not_NaN)
  have z: "fadd (fadd ?A ?B) ?C = Fin 0"
    using assms(4) unfolding objective32_three by simp
  from fadd_zero [OF z fadd_form [OF fa fb] fc] have ab: "fadd ?A ?B = Fin 0" and c0: "?C = Fin 0"
    by simp_all
  from fadd_zero [OF ab fa fb] have a0: "?A = Fin 0" and b0: "?B = Fin 0"
    by simp_all
  have "a = 5"
  proof (rule ccontr)
    assume "a \<noteq> 5"
    from near_5 [OF assms(1) this] have "2 powi (- 24) \<le> \<bar>a - 5\<bar>"
      by simp
    from fmul_self_round_nonzero [OF this] show False
      using a0 by (simp add: fsub_Fin)
  qed
  moreover have "c = 1"
  proof (rule ccontr)
    assume "c \<noteq> 1"
    from near_1 [OF assms(3) this] have "2 powi (- 24) \<le> \<bar>c - 1\<bar>" .
    from fmul_self_round_nonzero [OF this] show False
      using c0 by (simp add: fsub_Fin)
  qed
  moreover have "\<bar>b\<bar> \<le> 2 powi (- 75)" using b0 by (rule square_underflow)
  ultimately show ?thesis by simp
qed


lemma is_f32_values:
  "is_f32 0" "is_f32 1" "is_f32 2" "is_f32 (- 3)" "is_f32 5" "is_f32 9" "is_f32 10"
  "is_f32 81" "is_f32 91"
  unfolding is_f32_def
  by (simp_all add: f32_round_0 f32_round_normal [of 0] f32_round_normal [of 1]
      f32_round_normal [of 2] f32_round_normal [of 3] f32_round_normal [of 6]
      round_half_even_def)

text \<open>
  C1, amended. Applied to a three-element parameter tensor of floats, \<^verbatim>\<open>Net.f\<close> returns
  the single-precision evaluation of \<open>(x0 - 5)\<^sup>2 + x1\<^sup>2 + (x2 - 1)\<^sup>2\<close>: each difference, each
  square and each partial sum is rounded to a float. It is exactly the sum of the squared
  deviations from \<open>(5, 0, 1)\<close> whenever none of these operations rounds, as at the starting
  guess \<open>(2, 1, 10)\<close>, where it is 91.
\<close>

theorem Net_f32_value:
  assumes "pars self < length s" and "s ! pars self = [x0, x1, x2]"
  shows "Net_f32 self s =
           Inr (fadd (fadd (fmul (fsub x0 (Fin 5)) (fsub x0 (Fin 5))) (fmul x1 x1))
                     (fmul (fsub x2 (Fin 1)) (fsub x2 (Fin 1))),
                s @ [[fsub x0 (Fin 5), x1, fsub x2 (Fin 1)]]) \<and>
         (x0 = Fin a \<and> x1 = Fin b \<and> x2 = Fin c \<and>
          is_f32 (a - 5) \<and> is_f32 (c - 1) \<and>
          is_f32 ((a - 5)\<^sup>2) \<and> is_f32 (b\<^sup>2) \<and> is_f32 ((c - 1)\<^sup>2) \<and>
          is_f32 ((a - 5)\<^sup>2 + b\<^sup>2) \<and> is_f32 ((a - 5)\<^sup>2 + b\<^sup>2 + (c - 1)\<^sup>2) \<longrightarrow>
          Net_f32 self s =
            Inr (Fin ((a - 5)\<^sup>2 + b\<^sup>2 + (c - 1)\<^sup>2), s @ [[Fin (a - 5), Fin b, Fin (c - 1)]]))"
proof -
  have run: "Net_f32 self s =
           Inr (fadd (fadd (fmul (fsub x0 (Fin 5)) (fsub x0 (Fin 5))) (fmul x1 x1))
                     (fmul (fsub x2 (Fin 1)) (fsub x2 (Fin 1))),
                s @ [[fsub x0 (Fin 5), x1, fsub x2 (Fin 1)]])"
    using assms by (rule Net_f32_three)
  have exact: "Net_f32 self s =
            Inr (Fin ((a - 5)\<^sup>2 + b\<^sup>2 + (c - 1)\<^sup>2), s @ [[Fin (a - 5), Fin b, Fin (c - 1)]])"
    if h: "x0 = Fin a \<and> x1 = Fin b \<and> x2 = Fin c \<and>
          is_f32 (a - 5) \<and> is_f32 (c - 1) \<and>
          is_f32 ((a - 5)\<^sup>2) \<and> is_f32 (b\<^sup>2) \<and> is_f32 ((c - 1)\<^sup>2) \<and>
          is_f32 ((a - 5)\<^sup>2 + b\<^sup>2) \<and> is_f32 ((a - 5)\<^sup>2 + b\<^sup>2 + (c - 1)\<^sup>2)"
  proof -
    have d0: "fsub x0 (Fin 5) = Fin (a - 5)" and d2: "fsub x2 (Fin 1) = Fin (c - 1)"
      using h by (simp_all add: fsub_Fin is_f32_def)
    have q0: "fmul (Fin (a - 5)) (Fin (a - 5)) = Fin ((a - 5)\<^sup>2)"
      and q1: "fmul x1 x1 = Fin (b\<^sup>2)"
      and q2: "fmul (Fin (c - 1)) (Fin (c - 1)) = Fin ((c - 1)\<^sup>2)"
      using h by (simp_all add: is_f32_def power2_eq_square)
    have s1: "fadd (Fin ((a - 5)\<^sup>2)) (Fin (b\<^sup>2)) = Fin ((a - 5)\<^sup>2 + b\<^sup>2)"
      and s2: "fadd (Fin ((a - 5)\<^sup>2 + b\<^sup>2)) (Fin ((c - 1)\<^sup>2)) = Fin ((a - 5)\<^sup>2 + b\<^sup>2 + (c - 1)\<^sup>2)"
      using h by (simp_all add: is_f32_def)
    show ?thesis
      unfolding run d0 d2 q0 q1 q2 s1 s2 using h by simp
  qed
  show ?thesis using run exact by blast
qed

theorem Net_f32_value_witness:
  "pars (Net_init 0) < length [[Fin 2, Fin 1, Fin 10]] \<and>
   [[Fin 2, Fin 1, Fin 10]] ! pars (Net_init 0) = [Fin 2, Fin 1, Fin 10] \<and>
   is_f32 (2 - 5) \<and> is_f32 (10 - 1) \<and>
   is_f32 ((2 - 5)\<^sup>2) \<and> is_f32 (1\<^sup>2) \<and> is_f32 ((10 - 1)\<^sup>2) \<and>
   is_f32 ((2 - 5)\<^sup>2 + 1\<^sup>2) \<and> is_f32 ((2 - 5)\<^sup>2 + 1\<^sup>2 + (10 - 1)\<^sup>2) \<and>
   Net_f32 (Net_init 0) [[Fin 2, Fin 1, Fin 10]] =
     Inr (Fin 91, [[Fin 2, Fin 1, Fin 10], [Fin (- 3), Fin 1, Fin 9]])"
proof -
  have h0: "pars (Net_init 0) < length [[Fin 2, Fin 1, Fin 10]]"
    by (simp add: Net_init_def)
  have h1: "[[Fin 2, Fin 1, Fin 10]] ! pars (Net_init 0) = [Fin 2, Fin 1, Fin 10]"
    by (simp add: Net_init_def)
  have ex: "is_f32 (2 - 5) \<and> is_f32 (10 - 1) \<and>
   is_f32 ((2 - 5)\<^sup>2) \<and> is_f32 (1\<^sup>2) \<and> is_f32 ((10 - 1)\<^sup>2) \<and>
   is_f32 ((2 - 5)\<^sup>2 + 1\<^sup>2) \<and> is_f32 ((2 - 5)\<^sup>2 + 1\<^sup>2 + (10 - 1)\<^sup>2)"
    using is_f32_values by simp
  have "Fin 2 = Fin 2 \<and> Fin 1 = Fin 1 \<and> Fin 10 = Fin 10 \<and>
      is_f32 (2 - 5) \<and> is_f32 (10 - 1) \<and>
      is_f32 ((2 - 5)\<^sup>2) \<and> is_f32 (1\<^sup>2) \<and> is_f32 ((10 - 1)\<^sup>2) \<and>
      is_f32 ((2 - 5)\<^sup>2 + 1\<^sup>2) \<and> is_f32 ((2 - 5)\<^sup>2 + 1\<^sup>2 + (10 - 1)\<^sup>2) \<longrightarrow>
      Net_f32 (Net_init 0) [[Fin 2, Fin 1, Fin 10]] =
        Inr (Fin ((2 - 5)\<^sup>2 + 1\<^sup>2 + (10 - 1)\<^sup>2),
             [[Fin 2, Fin 1, Fin 10]] @ [[Fin (2 - 5), Fin 1, Fin (10 - 1)]])"
    using Net_f32_value [OF h0 h1, of 2 1 10] by (rule conjunct2)
  then have "Net_f32 (Net_init 0) [[Fin 2, Fin 1, Fin 10]] =
        Inr (Fin ((2 - 5)\<^sup>2 + 1\<^sup>2 + (10 - 1)\<^sup>2),
             [[Fin 2, Fin 1, Fin 10]] @ [[Fin (2 - 5), Fin 1, Fin (10 - 1)]])"
    using ex by blast
  then have val: "Net_f32 (Net_init 0) [[Fin 2, Fin 1, Fin 10]] =
     Inr (Fin 91, [[Fin 2, Fin 1, Fin 10], [Fin (- 3), Fin 1, Fin 9]])"
    by simp
  show ?thesis
    using h0 h1 ex val by simp
qed

text \<open>
  C1, as stated: \<^verbatim>\<open>Net.f\<close> returns exactly \<open>(x0 - 5)\<^sup>2 + x1\<^sup>2 + (x2 - 1)\<^sup>2\<close>. At the float
  vector \<open>(5002, 0, 1)\<close> that value is 24970009, which is not a float; \<^verbatim>\<open>Net.f\<close> returns
  24970008.
\<close>

theorem Net_f32_rounds_counterexample:
  "is_f32 5002 \<and>
   Net_f32 (Net_init 0) [[Fin 5002, Fin 0, Fin 1]] =
     Inr (Fin 24970008, [[Fin 5002, Fin 0, Fin 1], [Fin 4997, Fin 0, Fin 0]]) \<and>
   (5002 - 5)\<^sup>2 + 0\<^sup>2 + (1 - 1)\<^sup>2 = (24970009 :: real) \<and>
   Fin 24970008 \<noteq> Fin ((5002 - 5)\<^sup>2 + 0\<^sup>2 + (1 - 1)\<^sup>2)"
proof -
  have "is_f32 5002"
    by (simp add: is_f32_def f32_round_normal [of 12] round_half_even_def)
  then show ?thesis
    by (simp add: Net_f32_three Net_init_def fsub_Fin f32_round_0 r4997 r24970008 r24970009)
qed

lemma objective32_start: "objective32 [Fin 2, Fin 1, Fin 10] = Inr (Fin 91)"
proof -
  have r: "f32_round (- 3) = Fin (- 3)" "f32_round 9 = Fin 9" "f32_round 1 = Fin 1"
    "f32_round 81 = Fin 81" "f32_round 10 = Fin 10" "f32_round 91 = Fin 91"
    using is_f32_values by (simp_all add: is_f32_def)
  show ?thesis
    by (simp add: objective32_three fsub_Fin r)
qed

lemma objective32_target: "objective32 [Fin 5, Fin 0, Fin 1] = Inr (Fin 0)"
  by (simp add: objective32_three fsub_Fin f32_round_0)

text \<open>
  C2, amended. The objective is 0 at \<open>(5, 0, 1)\<close>, and at every three-element vector of
  finite floats it is a non-negative float or \<open>+inf\<close>: 0 is its least value and \<open>(5, 0, 1)\<close>
  attains it. It is 0 only where \<open>x0 = 5\<close>, \<open>x2 = 1\<close> and \<open>\<bar>x1\<bar> \<le> 2 ^ -75\<close>, the range in which
  the square of \<open>x1\<close> underflows; everywhere else it is strictly positive.
\<close>

theorem objective32_minimum:
  assumes "is_f32 a" and "is_f32 b" and "is_f32 c"
  shows "objective32 [Fin 5, Fin 0, Fin 1] = Inr (Fin 0) \<and>
         (\<exists>v. objective32 [Fin a, Fin b, Fin c] = Inr v \<and>
              (v = PInf \<or> (\<exists>y. v = Fin y \<and> 0 \<le> y)) \<and>
              (v = Fin 0 \<longrightarrow> a = 5 \<and> c = 1 \<and> \<bar>b\<bar> \<le> 2 powi (- 75)))"
proof -
  from objective32_nonneg [of a b c] obtain v where
    v: "objective32 [Fin a, Fin b, Fin c] = Inr v"
    and n: "v = PInf \<or> (\<exists>y. v = Fin y \<and> 0 \<le> y)"
    by blast
  have z: "v = Fin 0 \<longrightarrow> a = 5 \<and> c = 1 \<and> \<bar>b\<bar> \<le> 2 powi (- 75)"
    using objective32_zero [OF assms] v by simp
  show ?thesis
    using objective32_target v n z by blast
qed

theorem objective32_minimum_witness:
  "is_f32 2 \<and> is_f32 1 \<and> is_f32 10 \<and> is_f32 5 \<and> is_f32 0 \<and>
   objective32 [Fin 5, Fin 0, Fin 1] = Inr (Fin 0) \<and>
   (\<exists>v. objective32 [Fin 2, Fin 1, Fin 10] = Inr v \<and>
        (v = PInf \<or> (\<exists>y. v = Fin y \<and> 0 \<le> y)) \<and> v \<noteq> Fin 0) \<and>
   (\<exists>v. objective32 [Fin 5, Fin 0, Fin 1] = Inr v \<and> v = Fin 0 \<and>
        (5::real) = 5 \<and> (1::real) = 1 \<and> \<bar>0::real\<bar> \<le> 2 powi (- 75))"
proof -
  have h: "is_f32 2" "is_f32 1" "is_f32 10" using is_f32_values by simp_all
  have g: "is_f32 5" "is_f32 0" "is_f32 1" using is_f32_values by simp_all
  from objective32_minimum [OF h] obtain v where
    t: "objective32 [Fin 5, Fin 0, Fin 1] = Inr (Fin 0)"
    and v: "objective32 [Fin 2, Fin 1, Fin 10] = Inr v"
    and n: "v = PInf \<or> (\<exists>y. v = Fin y \<and> 0 \<le> y)"
    by blast
  have "v = Fin 91" using v objective32_start by simp
  then have p: "v \<noteq> Fin 0" by simp
  from objective32_minimum [OF g] obtain w where
    w: "objective32 [Fin 5, Fin 0, Fin 1] = Inr w"
    and z: "w = Fin 0 \<longrightarrow> (5::real) = 5 \<and> (1::real) = 1 \<and> \<bar>0::real\<bar> \<le> 2 powi (- 75)"
    by blast
  have w0: "w = Fin 0" using w t by simp
  have first: "\<exists>v. objective32 [Fin 2, Fin 1, Fin 10] = Inr v \<and>
        (v = PInf \<or> (\<exists>y. v = Fin y \<and> 0 \<le> y)) \<and> v \<noteq> Fin 0"
    using v n p by blast
  have second: "\<exists>v. objective32 [Fin 5, Fin 0, Fin 1] = Inr v \<and> v = Fin 0 \<and>
        (5::real) = 5 \<and> (1::real) = 1 \<and> \<bar>0::real\<bar> \<le> 2 powi (- 75)"
    using w w0 z by blast
  show ?thesis
    using h g t first second by blast
qed

text \<open>
  C2, as stated: the objective is strictly positive at every vector other than
  \<open>(5, 0, 1)\<close>. At the float vector \<open>(5, 2 ^ -100, 1)\<close> the square of \<open>x1\<close> underflows and
  \<^verbatim>\<open>Net.f\<close> returns 0.
\<close>

theorem objective32_zero_counterexample:
  "is_f32 (1 / 2 ^ 100) \<and>
   [5, 1 / 2 ^ 100, 1] \<noteq> [5, 0, 1 :: real] \<and>
   objective32 [Fin 5, Fin (1 / 2 ^ 100), Fin 1] = Inr (Fin 0)"
proof -
  have f: "is_f32 (1 / 2 ^ 100)"
    by (simp add: is_f32_def f32_round_normal [of "- 100"] round_half_even_def)
  have "f32_exponent (1 / 2 ^ 100 * (1 / 2 ^ 100)) = - 126"
    by (rule f32_exponent_subnormal) simp
  then have u: "f32_round (1 / 2 ^ 100 * (1 / 2 ^ 100)) = Fin 0"
    by (simp add: f32_round_def round_half_even_def)
  have d: "fsub (Fin 5) (Fin 5) = Fin 0" "fsub (Fin 1) (Fin 1) = Fin 0"
    by (simp_all add: fsub_Fin f32_round_0)
  have m0: "fmul (Fin 0) (Fin 0) = Fin 0" by (simp add: f32_round_0)
  have m1: "fmul (Fin (1 / 2 ^ 100)) (Fin (1 / 2 ^ 100)) = Fin 0"
    using u by (simp only: fmul.simps)
  have a0: "fadd (Fin 0) (Fin 0) = Fin 0" by (simp add: f32_round_0)
  have "objective32 [Fin 5, Fin (1 / 2 ^ 100), Fin 1] = Inr (Fin 0)"
    unfolding objective32_three d m0 m1 a0 by (rule refl)
  then show ?thesis using f by simp
qed





section \<open>The training step and the run\<close>

lemma forward_three:
  assumes "pars self < length s" and "s ! pars self = [a, b, c]"
  shows "forward self x state s =
    Inr ((a - 5)\<^sup>2 + b\<^sup>2 + (c - 1)\<^sup>2, state(ESTIMATE \<mapsto> Column (pars self)),
         s @ [[a - 5, b, c - 1]])"
  using assms by (simp add: forward_def Net_f_three)

lemma gd_update_three:
  "gd_update lr [a, b, c] (grad_f [a, b, c]) =
     [a - lr * (2 * (a - 5)), b - lr * (2 * b), c - lr * (2 * (c - 1))]"
  by (simp add: gd_update_def grad_f_three)

lemma train_step_three:
  assumes "pars model < length s" and "s ! pars model = [a, b, c]"
  shows "train_step lr model state s =
    Inr (state(ESTIMATE \<mapsto> Column (pars model)),
         (s @ [[a - 5, b, c - 1]])
           [pars model := [a - lr * (2 * (a - 5)), b - lr * (2 * b), c - lr * (2 * (c - 1))]])"
  using assms
  by (simp add: train_step_def forward_three SGD_step_def nth_append gd_update_three)

lemma trained_three:
  "trained n lr [a, b, c] =
     [5 + (1 - 2 * lr) ^ n * (a - 5), (1 - 2 * lr) ^ n * b, 1 + (1 - 2 * lr) ^ n * (c - 1)]"
proof (induction n arbitrary: a b c)
  case 0
  show ?case by simp
next
  case (Suc n)
  show ?case
    unfolding trained.simps gd_update_three Suc.IH by (simp add: algebra_simps)
qed

lemma run_steps_three:
  assumes "pars model < length s" and "s ! pars model = [a, b, c]"
  shows "\<exists>s'. run_steps n lr model state s =
           Inr (if n = 0 then state else state(ESTIMATE \<mapsto> Column (pars model)), s') \<and>
         s' ! pars model =
           [5 + (1 - 2 * lr) ^ n * (a - 5), (1 - 2 * lr) ^ n * b, 1 + (1 - 2 * lr) ^ n * (c - 1)] \<and>
         length s' = length s + n \<and>
         (\<forall>r < length s. r \<noteq> pars model \<longrightarrow> s' ! r = s ! r)"
  using assms
proof (induction n arbitrary: s state a b c)
  case 0
  then show ?case by simp
next
  case (Suc n)
  let ?s1 = "(s @ [[a - 5, b, c - 1]])
           [pars model := [a - lr * (2 * (a - 5)), b - lr * (2 * b), c - lr * (2 * (c - 1))]]"
  let ?st1 = "state(ESTIMATE \<mapsto> Column (pars model))"
  have step: "train_step lr model state s = Inr (?st1, ?s1)"
    using Suc.prems by (rule train_step_three)
  have p1: "pars model < length ?s1" using Suc.prems by simp
  have v1: "?s1 ! pars model = [a - lr * (2 * (a - 5)), b - lr * (2 * b), c - lr * (2 * (c - 1))]"
    using Suc.prems by simp
  from Suc.IH[OF p1 v1, of ?st1] obtain s' where
    r: "run_steps n lr model ?st1 ?s1 =
           Inr (if n = 0 then ?st1 else ?st1(ESTIMATE \<mapsto> Column (pars model)), s')"
    and v: "s' ! pars model =
           [5 + (1 - 2 * lr) ^ n * (a - lr * (2 * (a - 5)) - 5), (1 - 2 * lr) ^ n * (b - lr * (2 * b)),
            1 + (1 - 2 * lr) ^ n * (c - lr * (2 * (c - 1)) - 1)]"
    and l: "length s' = length ?s1 + n"
    and f: "\<forall>r < length ?s1. r \<noteq> pars model \<longrightarrow> s' ! r = ?s1 ! r"
    by blast
  have r1: "run_steps (Suc n) lr model state s = Inr (?st1, s')"
    using step r by simp
  have v': "s' ! pars model = [5 + (1 - 2 * lr) ^ Suc n * (a - 5), (1 - 2 * lr) ^ Suc n * b,
      1 + (1 - 2 * lr) ^ Suc n * (c - 1)]"
    unfolding v by (simp add: algebra_simps)
  have l': "length s' = length s + Suc n" using l by simp
  have f': "\<forall>r < length s. r \<noteq> pars model \<longrightarrow> s' ! r = s ! r"
    using f by (simp add: nth_append)
  show ?case
  proof (intro exI conjI)
    show "run_steps (Suc n) lr model state s =
        Inr (if Suc n = 0 then state else state(ESTIMATE \<mapsto> Column (pars model)), s')"
      unfolding r1 by (simp only: nat.distinct if_False)
  qed (rule v', rule l', rule f')
qed



section \<open>The notebook as a whole\<close>

lemma notebook_setup_eq: "notebook_setup = (\<lparr>pars = 1\<rparr>, [p_data, p_data])"
  by (simp add: notebook_setup_def alloc_def Net_init_def to_device_def)

lemma run_steps_trained:
  assumes "pars model < length s" and "length (s ! pars model) = 3"
  shows "\<exists>s'. run_steps n lr model state s =
           Inr (if n = 0 then state else state(ESTIMATE \<mapsto> Column (pars model)), s') \<and>
         s' ! pars model = trained n lr (s ! pars model) \<and>
         length (s' ! pars model) = 3 \<and>
         (\<forall>r < length s. r \<noteq> pars model \<longrightarrow> s' ! r = s ! r)"
proof -
  from three_elements [OF assms(2)] obtain a b c where abc: "s ! pars model = [a, b, c]"
    by blast
  from run_steps_three [OF assms(1) abc, of n lr state] obtain s' where
    r: "run_steps n lr model state s =
           Inr (if n = 0 then state else state(ESTIMATE \<mapsto> Column (pars model)), s')"
    and v: "s' ! pars model =
           [5 + (1 - 2 * lr) ^ n * (a - 5), (1 - 2 * lr) ^ n * b, 1 + (1 - 2 * lr) ^ n * (c - 1)]"
    and f: "\<forall>r < length s. r \<noteq> pars model \<longrightarrow> s' ! r = s ! r"
    by blast
  have t: "s' ! pars model = trained n lr (s ! pars model)"
    unfolding abc trained_three by (rule v)
  have l: "length (s' ! pars model) = 3"
    unfolding v by simp
  show ?thesis using r t l f by blast
qed

text \<open>
  C6. The import cell first tries the import. It installs the package and imports again
  exactly when that first import raised; when the first import succeeds nothing is
  installed and the environment is the one the import left.
\<close>

theorem import_cell_fallback:
  "\<exists>r acts env'.
     import_cell try_import pip_install env = (r, acts, env') \<and>
     hd acts = Import \<and>
     (PipInstall \<in> set acts \<longleftrightarrow> fst (try_import env) \<noteq> None) \<and>
     (fst (try_import env) = None \<longrightarrow>
        acts = [Import] \<and> r = None \<and> env' = snd (try_import env)) \<and>
     (fst (try_import env) \<noteq> None \<longrightarrow>
        acts = [Import, PipInstall, Import] \<and>
        (r, env') = try_import (pip_install (snd (try_import env))))"
proof (cases "try_import env")
  case (Pair r1 env1)
  show ?thesis
  proof (cases r1)
    case None
    then show ?thesis using Pair by (simp add: import_cell_def)
  next
    case (Some x)
    then show ?thesis
      using Pair by (cases "try_import (pip_install env1)") (simp add: import_cell_def)
  qed
qed

theorem import_cell_fallback_witness:
  "fst ((\<lambda>inst. (if inst then None else Some ''ModuleNotFoundError'', inst)) True) = None \<and>
   fst ((\<lambda>inst. (if inst then None else Some ''ModuleNotFoundError'', inst)) False) \<noteq> None \<and>
   import_cell (\<lambda>inst. (if inst then None else Some ''ModuleNotFoundError'', inst))
     (\<lambda>_. True) True = (None, [Import], True) \<and>
   import_cell (\<lambda>inst. (if inst then None else Some ''ModuleNotFoundError'', inst))
     (\<lambda>_. True) False = (None, [Import, PipInstall, Import], True)"
  using
    import_cell_fallback [of "\<lambda>inst. (if inst then None else Some ''ModuleNotFoundError'', inst)"
      "\<lambda>_. True" True]
    import_cell_fallback [of "\<lambda>inst. (if inst then None else Some ''ModuleNotFoundError'', inst)"
      "\<lambda>_. True" False]
  by auto

text \<open>
  C9. \<^verbatim>\<open>Net.f\<close> has no side effect on existing state: on a parameter tensor of at least
  three elements it returns, every tensor that existed before the call (the parameter
  tensor among them) is unchanged, and the only new object is its own temporary. The
  scalar depends on the contents of the parameter tensor alone: a second evaluation, or
  an evaluation in any other store with the same parameter contents, returns the same
  scalar.
\<close>

theorem Net_f_pure:
  assumes "pars self < length s" and "3 \<le> length (s ! pars self)"
  shows "\<exists>v s'.
           Net_f self s = Inr (v, s') \<and>
           take (length s) s' = s \<and> length s' = Suc (length s) \<and>
           s' ! pars self = s ! pars self \<and>
           (\<exists>s''. Net_f self s' = Inr (v, s'')) \<and>
           objective (s ! pars self) = Inr v \<and>
           (\<forall>m t. pars m < length t \<and> t ! pars m = s ! pars self \<longrightarrow>
                  (\<exists>t'. Net_f m t = Inr (v, t')))"
proof -
  let ?out = "\<lambda>p. (zeros_like p)[0 := p ! 0 - 5, 1 := p ! 1, 2 := p ! 2 - 1]"
  let ?v = "sum_list (map (\<lambda>v. v ^ 2) (?out (s ! pars self)))"
  let ?s' = "s @ [?out (s ! pars self)]"
  have r: "Net_f self s = Inr (?v, ?s')"
    using assms by (rule Net_f_run)
  have keep: "?s' ! pars self = s ! pars self"
    using assms(1) by (simp add: nth_append)
  have p': "pars self < length ?s'" using assms(1) by simp
  have l': "3 \<le> length (?s' ! pars self)" using assms(2) keep by simp
  have again: "\<exists>s''. Net_f self ?s' = Inr (?v, s'')"
    using Net_f_run [OF p' l'] keep by simp
  have ob: "objective (s ! pars self) = Inr ?v"
    using assms r by (rule objective_of_Net_f)
  have det: "\<exists>t'. Net_f m t = Inr (?v, t')" if "pars m < length t \<and> t ! pars m = s ! pars self" for m t
    using Net_f_run [of m t] that assms(2) by simp
  show ?thesis
    using r keep again ob det
    by (intro exI [of _ ?v] exI [of _ ?s']) simp
qed

theorem Net_f_pure_witness:
  "pars \<lparr>pars = 0\<rparr> < length [[2, 1, 10 :: real]] \<and>
   3 \<le> length ([[2, 1, 10 :: real]] ! pars \<lparr>pars = 0\<rparr>) \<and>
   (\<exists>v s'.
      Net_f \<lparr>pars = 0\<rparr> [[2, 1, 10]] = Inr (v, s') \<and>
      take (length [[2, 1, 10 :: real]]) s' = [[2, 1, 10]] \<and>
      s' ! pars \<lparr>pars = 0\<rparr> = [2, 1, 10] \<and>
      (\<exists>s''. Net_f \<lparr>pars = 0\<rparr> s' = Inr (v, s'')) \<and>
      objective [2, 1, 10] = Inr v)"
proof -
  have h0: "pars \<lparr>pars = 0\<rparr> < length [[2, 1, 10 :: real]]" by simp
  have h1: "3 \<le> length ([[2, 1, 10 :: real]] ! pars \<lparr>pars = 0\<rparr>)" by simp
  from Net_f_pure [OF h0 h1] obtain v s' where
    "Net_f \<lparr>pars = 0\<rparr> [[2, 1, 10]] = Inr (v, s')"
    "take (length [[2, 1, 10 :: real]]) s' = [[2, 1, 10]]"
    "s' ! pars \<lparr>pars = 0\<rparr> = [[2, 1, 10]] ! pars \<lparr>pars = 0\<rparr>"
    "\<exists>s''. Net_f \<lparr>pars = 0\<rparr> s' = Inr (v, s'')"
    "objective ([[2, 1, 10]] ! pars \<lparr>pars = 0\<rparr>) = Inr v"
    by blast
  then show ?thesis using h0 h1 by simp
qed


text \<open>
  C8, as stated: the parameter vector is the sole mutable state. A forward pass on the
  starting guess also writes the state dictionary: the \<^verbatim>\<open>ESTIMATE\<close> entry is set where
  there was none.
\<close>

theorem forward_state_counterexample:
  "forward (Net_init 0) () Map.empty [p_data] =
     Inr (91, [ESTIMATE \<mapsto> Column 0], [p_data, [- 3, 1, 9]]) \<and>
   [ESTIMATE \<mapsto> Column 0] \<noteq> (Map.empty :: tb_state)"
  by (simp add: forward_three [of _ _ 2 1 10] Net_init_def p_data_def)

text \<open>
  C8, amended. The parameter vector is a three-element real vector, initialised to the
  starting guess \<open>(2, 1, 10)\<close>. Every run of optimisation steps completes, updates it in
  place (the same tensor object holds the new value, the one \<open>n\<close> gradient-descent updates
  give), keeps its length at 3 and leaves every other tensor that existed untouched. It
  is not the only thing written: from the first step on, the state dictionary holds under
  \<^verbatim>\<open>ESTIMATE\<close> a column view of the parameter tensor, which shows its current value; no
  other entry of the dictionary changes.
\<close>

theorem parameter_vector_state:
  assumes "pars model < length s" and "length (s ! pars model) = 3"
  shows "snd notebook_setup ! pars (fst notebook_setup) = [2, 1, 10] \<and>
         (\<exists>state' s'.
            run_steps n lr model state s = Inr (state', s') \<and>
            length (s' ! pars model) = 3 \<and>
            s' ! pars model = trained n lr (s ! pars model) \<and>
            (\<forall>r<length s. r \<noteq> pars model \<longrightarrow> s' ! r = s ! r) \<and>
            (\<forall>k. k \<noteq> ESTIMATE \<longrightarrow> state' k = state k) \<and>
            (0 < n \<longrightarrow>
               state' ESTIMATE = Some (Column (pars model)) \<and>
               read_view (Column (pars model)) s' =
                 map (\<lambda>x. [x]) (trained n lr (s ! pars model))))"
proof -
  have init: "snd notebook_setup ! pars (fst notebook_setup) = [2, 1, 10]"
    by (simp add: notebook_setup_eq p_data_def)
  let ?st = "if n = 0 then state else state(ESTIMATE \<mapsto> Column (pars model))"
  from run_steps_trained [OF assms, of n lr state] obtain s' where
    r: "run_steps n lr model state s = Inr (?st, s')"
    and v: "s' ! pars model = trained n lr (s ! pars model)"
    and l: "length (s' ! pars model) = 3"
    and f: "\<forall>r < length s. r \<noteq> pars model \<longrightarrow> s' ! r = s ! r"
    by blast
  have k: "\<forall>k. k \<noteq> ESTIMATE \<longrightarrow> ?st k = state k" by simp
  have e: "0 < n \<longrightarrow> ?st ESTIMATE = Some (Column (pars model)) \<and>
      read_view (Column (pars model)) s' = map (\<lambda>x. [x]) (trained n lr (s ! pars model))"
    using v by (simp add: read_view_def)
  show ?thesis
    using init r l v f k e by blast
qed

theorem parameter_vector_state_witness:
  "pars \<lparr>pars = 1\<rparr> < length [p_data, p_data] \<and>
   length ([p_data, p_data] ! pars \<lparr>pars = 1\<rparr>) = 3 \<and>
   snd notebook_setup ! pars (fst notebook_setup) = [2, 1, 10] \<and>
   (\<exists>state' s'.
      run_steps 1 lr_sgd \<lparr>pars = 1\<rparr> Map.empty [p_data, p_data] = Inr (state', s') \<and>
      length (s' ! pars \<lparr>pars = 1\<rparr>) = 3 \<and>
      s' ! pars \<lparr>pars = 1\<rparr> = trained 1 lr_sgd ([p_data, p_data] ! pars \<lparr>pars = 1\<rparr>) \<and>
      (\<forall>r<length [p_data, p_data]. r \<noteq> pars \<lparr>pars = 1\<rparr> \<longrightarrow> s' ! r = [p_data, p_data] ! r) \<and>
      (\<forall>k. k \<noteq> ESTIMATE \<longrightarrow> state' k = Map.empty k) \<and>
      (0 < (1::nat) \<longrightarrow>
         state' ESTIMATE = Some (Column (pars \<lparr>pars = 1\<rparr>)) \<and>
         read_view (Column (pars \<lparr>pars = 1\<rparr>)) s' =
           map (\<lambda>x. [x]) (trained 1 lr_sgd ([p_data, p_data] ! pars \<lparr>pars = 1\<rparr>))))"
proof -
  have h0: "pars \<lparr>pars = 1\<rparr> < length [p_data, p_data]" by simp
  have h1: "length ([p_data, p_data] ! pars \<lparr>pars = 1\<rparr>) = 3" by (simp add: p_data_def)
  show ?thesis
    by (rule conjI [OF h0 conjI [OF h1 parameter_vector_state [OF h0 h1, of 1 lr_sgd Map.empty]]])
qed

end
